theory Spec2Isabelle
  imports Main "HOL-Library.Word"
begin

unbundle bit_operations_syntax

section \<open>The BINRPC record of package binrpc (binrpc/record.go)\<close>

subsection \<open>Data model\<close>

text \<open>
  Go's \<open>uint8\<close>/\<open>byte\<close> is an 8-bit word. Go's \<open>int\<close> is taken at its width on
  64-bit platforms (the spec's \<open>Integer(i64)\<close>); arithmetic on it wraps. A \<open>float64\<close>
  is carried as its 64-bit IEEE-754 pattern: the model only copies such values and hands
  them to the library operations listed in \<open>golib\<close> below. A Go \<open>string\<close> is an
  immutable sequence of bytes.
\<close>

type_synonym byte = "8 word"
type_synonym goint = "64 word"
type_synonym float64 = "64 word"
type_synonym gostring = "byte list"

text \<open>
  \<open>Record.Value\<close> has the static type \<open>any\<close>: the dynamic value is a string, an int, a
  float64, a slice of StructItem, or something else (\<open>VOther\<close>: nil or a value of any
  other Go type). The fields of StructItem are \<open>Key\<close> and \<open>Value\<close>; the second is
  named \<open>ItemValue\<close> here, and the unexported field \<open>size\<close> of Record is \<open>rsize\<close>.
\<close>

datatype val =
    VString gostring
  | VInt goint
  | VDouble float64
  | VStruct "StructItem list"
  | VOther
and StructItem = StructItem (Key: gostring) (ItemValue: Record)
and Record = Record (rsize: goint) (Type: byte) (Value: val)

text \<open>
  The type tags \<open>TypeInt\<close>, \<open>TypeString\<close>, \<open>TypeDouble\<close> and \<open>TypeStruct\<close> are
  package constants of type uint8 that record.go uses and another file declares. They
  are a parameter of every definition below.
\<close>

record tags =
  TypeInt :: byte
  TypeString :: byte
  TypeDouble :: byte
  TypeStruct :: byte

text \<open>
  What every declaration of the four constants satisfies: they are four different tags
  (the switch statements of record.go would not compile with a repeated case constant),
  and each fits the low four bits of a record's header byte.
\<close>

definition wf_tags :: "tags \<Rightarrow> bool" where
  "wf_tags tg \<longleftrightarrow>
     distinct [TypeInt tg, TypeString tg, TypeDouble tg, TypeStruct tg] \<and>
     TypeInt tg < 16 \<and> TypeString tg < 16 \<and> TypeDouble tg < 16 \<and> TypeStruct tg < 16"

text \<open>The tags of the BINRPC protocol, used to run the model on concrete records.\<close>

definition binrpc_tags :: tags where
  "binrpc_tags = \<lparr>TypeInt = 0, TypeString = 1, TypeDouble = 2, TypeStruct = 3\<rparr>"

text \<open>
  The errors record.go builds. \<open>ErrExpected t got\<close> is
  "type error: expected type ... (t), got got" of the strict accessors,
  \<open>ErrCannotConvert got k\<close> is "type error: cannot convert type got to k" of Scan,
  \<open>ErrExpectedGo k\<close> is "type error: expected type k" of Encode, \<open>ErrNotImplemented t\<close>
  is "type error: type t not implemented", \<open>ErrInvalidDest\<close> is "invalid dest type".
  \<open>ErrSyntax\<close> and \<open>ErrRange\<close> are the two errors of package strconv, and \<open>ErrIO\<close> is
  an error reported by the io.Writer handed to Encode.
\<close>

datatype kind = KString | KInt | KDouble | KStructItems

datatype error =
    ErrExpected byte byte
  | ErrCannotConvert byte kind
  | ErrExpectedGo kind
  | ErrNotImplemented byte
  | ErrInvalidDest
  | ErrSyntax
  | ErrRange
  | ErrIO nat

text \<open>
  A call either returns or panics. A failed type assertion \<open>record.Value.(T)\<close> and a
  store through a nil pointer panic.
\<close>

datatype 'a outcome = Return 'a | Panic

fun asString :: "val \<Rightarrow> gostring option" where
  "asString (VString s) = Some s"
| "asString _ = None"

fun asInt :: "val \<Rightarrow> goint option" where
  "asInt (VInt n) = Some n"
| "asInt _ = None"

fun asFloat64 :: "val \<Rightarrow> float64 option" where
  "asFloat64 (VDouble x) = Some x"
| "asFloat64 _ = None"

fun asStructItems :: "val \<Rightarrow> StructItem list option" where
  "asStructItems (VStruct items) = Some items"
| "asStructItems _ = None"

text \<open>
  The data-model invariant: the dynamic type of \<open>Value\<close> is the one the tag in \<open>Type\<close>
  announces. A record with a tag outside the four carries no value of the four kinds.
\<close>

fun variant_matches :: "tags \<Rightarrow> byte \<Rightarrow> val \<Rightarrow> bool" where
  "variant_matches tg t (VString _) = (t = TypeString tg)"
| "variant_matches tg t (VInt _) = (t = TypeInt tg)"
| "variant_matches tg t (VDouble _) = (t = TypeDouble tg)"
| "variant_matches tg t (VStruct _) = (t = TypeStruct tg)"
| "variant_matches tg t VOther =
     (t \<noteq> TypeString tg \<and> t \<noteq> TypeInt tg \<and> t \<noteq> TypeDouble tg \<and> t \<noteq> TypeStruct tg)"

definition record_ok :: "tags \<Rightarrow> Record \<Rightarrow> bool" where
  "record_ok tg record = variant_matches tg (Type record) (Value record)"

subsection \<open>The strict accessors\<close>

text \<open>
  Each accessor returns a pair (value, error) as in Go, with \<open>None\<close> for a nil error,
  together with the receiver as the call leaves it. \<open>String\<close>, \<open>Int\<close> and \<open>Double\<close>
  have value receivers, \<open>StructItems\<close> and \<open>Scan\<close> pointer receivers; the pointer is
  taken to point to a record.
\<close>

definition Record_String :: "tags \<Rightarrow> Record \<Rightarrow> (gostring \<times> error option) outcome \<times> Record" where
  "Record_String tg record =
     (if Type record \<noteq> TypeString tg
      then (Return ([], Some (ErrExpected (TypeString tg) (Type record))), record)
      else (case asString (Value record) of
              None \<Rightarrow> (Panic, record)
            | Some s \<Rightarrow> (Return (s, None), record)))"

definition Record_Int :: "tags \<Rightarrow> Record \<Rightarrow> (goint \<times> error option) outcome \<times> Record" where
  "Record_Int tg record =
     (if Type record \<noteq> TypeInt tg
      then (Return (0, Some (ErrExpected (TypeInt tg) (Type record))), record)
      else (case asInt (Value record) of
              None \<Rightarrow> (Panic, record)
            | Some n \<Rightarrow> (Return (n, None), record)))"

definition Record_Double :: "tags \<Rightarrow> Record \<Rightarrow> (float64 \<times> error option) outcome \<times> Record" where
  "Record_Double tg record =
     (if Type record \<noteq> TypeDouble tg
      then (Return (0, Some (ErrExpected (TypeDouble tg) (Type record))), record)
      else (case asFloat64 (Value record) of
              None \<Rightarrow> (Panic, record)
            | Some x \<Rightarrow> (Return (x, None), record)))"

definition Record_StructItems ::
    "tags \<Rightarrow> Record \<Rightarrow> (StructItem list \<times> error option) outcome \<times> Record" where
  "Record_StructItems tg record =
     (if Type record \<noteq> TypeStruct tg
      then (Return ([], Some (ErrExpected (TypeStruct tg) (Type record))), record)
      else (case asStructItems (Value record) of
              None \<Rightarrow> (Panic, record)
            | Some items \<Rightarrow> (Return (items, None), record)))"

text \<open>An accessor returns an error when the second component of its result is not nil.\<close>

fun returns_error :: "('a \<times> error option) outcome \<Rightarrow> bool" where
  "returns_error (Return (v, Some e)) = True"
| "returns_error _ = False"

subsection \<open>Library operations\<close>

text \<open>
  Scan and Encode call the Go standard library and the built-in float64 arithmetic:
  strconv.Itoa, strconv.Atoi, strconv.ParseFloat(s, 64), fmt.Sprintf("%.3f", x), the
  conversions float64(n) and int(x), and float64 multiplication. None of them is code
  of this package; the model takes them as a parameter. Atoi and ParseFloat return the
  parsed number or their error.
\<close>

record golib =
  Itoa :: "goint \<Rightarrow> gostring"
  Atoi :: "gostring \<Rightarrow> error + goint"
  ParseFloat :: "gostring \<Rightarrow> error + float64"
  Sprintf_3f :: "float64 \<Rightarrow> gostring"
  float64_of_int :: "goint \<Rightarrow> float64"
  int_of_float64 :: "float64 \<Rightarrow> goint"
  mul_float64 :: "float64 \<Rightarrow> float64 \<Rightarrow> float64"
  div_float64 :: "float64 \<Rightarrow> float64 \<Rightarrow> float64"

subsection \<open>Scan\<close>

text \<open>
  \<open>dest\<close> has the static type \<open>any\<close>. The type switch of Scan tells a \<open>*string\<close>, a
  \<open>*int\<close>, a \<open>*float64\<close> and a \<open>*[]StructItem\<close> from everything else (\<open>POther\<close>). A
  pointer is nil (\<open>None\<close>) or points to a variable of the caller, given by the value it
  holds. That variable is not part of the record Scan is called on: the only field of a
  Record of one of the four pointee types is the unexported \<open>size\<close>.
\<close>

datatype dest =
    PString "gostring option"
  | PInt "goint option"
  | PFloat64 "float64 option"
  | PStructItems "StructItem list option"
  | POther

text \<open>
  The assignment \<open>*p = e\<close>: \<open>e\<close> is \<open>None\<close> when a type assertion in it panics, and the
  store panics when \<open>p\<close> is nil. Otherwise the variable holds the value of \<open>e\<close>.
\<close>

definition store :: "'a option \<Rightarrow> 'a option \<Rightarrow> 'a option outcome" where
  "store p e =
     (case e of
        None \<Rightarrow> Panic
      | Some v \<Rightarrow> (case p of None \<Rightarrow> Panic | Some _ \<Rightarrow> Return (Some v)))"

text \<open>
  After the assignment Scan leaves the switch and returns nil. The result of Scan is its
  error, the record and the destination as the call leaves them.
\<close>

definition assigned ::
    "Record \<Rightarrow> dest \<Rightarrow> ('a option \<Rightarrow> dest) \<Rightarrow> 'a option outcome \<Rightarrow>
     error option outcome \<times> Record \<times> dest" where
  "assigned record dest ptr out =
     (case out of
        Panic \<Rightarrow> (Panic, record, dest)
      | Return p \<Rightarrow> (Return None, record, ptr p))"

definition Record_Scan ::
    "tags \<Rightarrow> golib \<Rightarrow> Record \<Rightarrow> dest \<Rightarrow> error option outcome \<times> Record \<times> dest" where
  "Record_Scan tg lib record dest =
     (case dest of
        PString s \<Rightarrow>
          if Type record = TypeString tg then
            assigned record dest PString (store s (asString (Value record)))
          else if Type record = TypeInt tg then
            assigned record dest PString (store s (map_option (Itoa lib) (asInt (Value record))))
          else if Type record = TypeDouble tg then
            assigned record dest PString
              (store s (map_option (Sprintf_3f lib) (asFloat64 (Value record))))
          else (Return (Some (ErrCannotConvert (Type record) KString)), record, dest)
      | PInt i \<Rightarrow>
          if Type record = TypeString tg then
            (case asString (Value record) of
               None \<Rightarrow> (Panic, record, dest)
             | Some str \<Rightarrow>
                 (case Atoi lib str of
                    Inr n \<Rightarrow> assigned record dest PInt (store i (Some n))
                  | Inl err \<Rightarrow> (Return (Some err), record, dest)))
          else if Type record = TypeInt tg then
            assigned record dest PInt (store i (asInt (Value record)))
          else (Return (Some (ErrCannotConvert (Type record) KInt)), record, dest)
      | PFloat64 f \<Rightarrow>
          if Type record = TypeString tg then
            (case asString (Value record) of
               None \<Rightarrow> (Panic, record, dest)
             | Some str \<Rightarrow>
                 (case ParseFloat lib str of
                    Inr x \<Rightarrow> assigned record dest PFloat64 (store f (Some x))
                  | Inl err \<Rightarrow> (Return (Some err), record, dest)))
          else if Type record = TypeInt tg then
            assigned record dest PFloat64
              (store f (map_option (float64_of_int lib) (asInt (Value record))))
          else if Type record = TypeDouble tg then
            assigned record dest PFloat64 (store f (asFloat64 (Value record)))
          else (Return (Some (ErrCannotConvert (Type record) KDouble)), record, dest)
      | PStructItems items \<Rightarrow>
          if Type record \<noteq> TypeStruct tg then
            (Return (Some (ErrCannotConvert (Type record) KStructItems)), record, dest)
          else assigned record dest PStructItems (store items (asStructItems (Value record)))
      | POther \<Rightarrow> (Return (Some ErrInvalidDest), record, dest))"

subsection \<open>Encode\<close>

text \<open>
  Modelled from the spec: the helper \<open>intToBytesBE\<close> of the package, which record.go
  calls and another file declares, needs the bytes of an int in big-endian order.
  \<open>be_bytes k n\<close> is the low \<open>k\<close> bytes of \<open>n\<close>, the most significant first.
\<close>

fun be_bytes :: "nat \<Rightarrow> goint \<Rightarrow> byte list" where
  "be_bytes 0 n = []"
| "be_bytes (Suc k) n = ucast (drop_bit (8 * k) n) # be_bytes k n"

text \<open>
  Modelled from the spec: \<open>intToBytesBE\<close> is missing from the sources. The spec (4.1)
  gives its result: the "minimal big-endian two's-complement byte sequence with no
  leading all-zero byte; the value 0 serializes to a zero-length payload". Here: the
  eight bytes of the 64-bit two's-complement value without the leading zero bytes.
\<close>

definition intToBytesBE :: "goint \<Rightarrow> byte list" where
  "intToBytesBE n = dropWhile (\<lambda>b. b = 0) (be_bytes 8 n)"

text \<open>
  An io.Writer is a state \<open>'w\<close> with its \<open>Write\<close> method, which returns its error and the
  writer's new state. The writer keeps io.Writer's contract (a Write that reports no
  error has taken all the bytes), so the count \<open>n\<close> that Write also returns is left out.
  \<open>buffer_Write\<close> is the Write of a bytes.Buffer, which appends and never fails.
\<close>

type_synonym 'w writer = "'w \<Rightarrow> byte list \<Rightarrow> error option \<times> 'w"

definition buffer_Write :: "byte list writer" where
  "buffer_Write w p = (None, w @ p)"

text \<open>
  Lines 166 to 183 of record.go: what \<open>buffer\<close> holds when Encode hands it to the
  writer, from the record's type and the bytes of \<open>value\<close>. \<open>sizeOfValue\<close> is the length
  of \<open>value\<close>; \<open>byte(sizeOfValue << 4)\<close> and \<open>uint8(len(sizeBytes) << 4)\<close> keep the low
  eight bits of the shifted length.
\<close>

definition frame :: "byte \<Rightarrow> byte list \<Rightarrow> byte list" where
  "frame ty val_bytes =
     (let sizeOfValue = length val_bytes in
      if sizeOfValue < 8 then
        (of_nat (push_bit 4 sizeOfValue) OR ty) # val_bytes
      else
        (let sizeBytes = intToBytesBE (of_nat sizeOfValue) in
         (push_bit 7 1 OR of_nat (push_bit 4 (length sizeBytes)) OR ty) # sizeBytes @ val_bytes))"

text \<open>
  The switch of Encode (lines 129 to 164) either returns from Encode (\<open>Inl\<close>: a type
  error with nothing written, or the result of the one-byte Write of the shortcut for
  the integer 0) or leaves the payload in \<open>value\<close> (\<open>Inr\<close>).
\<close>

definition encode_switch ::
    "tags \<Rightarrow> golib \<Rightarrow> 'w writer \<Rightarrow> 'w \<Rightarrow> Record \<Rightarrow> (error option \<times> 'w) + byte list" where
  "encode_switch tg lib Write w record =
     (if Type record = TypeInt tg then
        (case asInt (Value record) of
           None \<Rightarrow> Inl (Some (ErrExpectedGo KInt), w)
         | Some v \<Rightarrow> if v = 0 then Inl (Write w [0x00]) else Inr (intToBytesBE v))
      else if Type record = TypeString tg then
        (case asString (Value record) of
           None \<Rightarrow> Inl (Some (ErrExpectedGo KString), w)
         | Some s \<Rightarrow> Inr (s @ [0x00]))
      else if Type record = TypeDouble tg then
        (case asFloat64 (Value record) of
           None \<Rightarrow> Inl (Some (ErrExpectedGo KDouble), w)
         | Some v \<Rightarrow>
             Inr (intToBytesBE (int_of_float64 lib (mul_float64 lib v (float64_of_int lib 1000)))))
      else Inl (Some (ErrNotImplemented (Type record)), w))"

definition Record_Encode ::
    "tags \<Rightarrow> golib \<Rightarrow> 'w writer \<Rightarrow> 'w \<Rightarrow> Record \<Rightarrow> error option \<times> 'w" where
  "Record_Encode tg lib Write w record =
     (case encode_switch tg lib Write w record of
        Inl returned \<Rightarrow> returned
      | Inr val_bytes \<Rightarrow> Write w (frame (Type record) val_bytes))"

section \<open>The record codec of the specification\<close>

subsection \<open>Encode as the specification words it\<close>

text \<open>
  The general algorithm of section 4.1 of the spec, written down from its words and
  independently of record.go, to compare Encode with: the payload per variant, then the
  header byte from its three fields (bit 7 the extended-length flag, bits 4 to 6 the
  size field, bits 0 to 3 the type tag), then the length bytes when the payload has 8
  bytes or more, then the payload. There is no special case for 0.
\<close>

datatype spec_error = UnsupportedType | MalformedRecord

definition spec_payload :: "golib \<Rightarrow> val \<Rightarrow> spec_error + byte list" where
  "spec_payload lib v =
     (case v of
        VInt n \<Rightarrow> Inr (intToBytesBE n)
      | VString s \<Rightarrow> Inr (s @ [0])
      | VDouble x \<Rightarrow>
          Inr (intToBytesBE (int_of_float64 lib (mul_float64 lib x (float64_of_int lib 1000))))
      | _ \<Rightarrow> Inl UnsupportedType)"

definition spec_header_byte :: "bool \<Rightarrow> nat \<Rightarrow> byte \<Rightarrow> byte" where
  "spec_header_byte extended sizefield tag =
     push_bit 7 (of_bool extended) OR push_bit 4 (of_nat sizefield) OR tag"

definition spec_Encode :: "golib \<Rightarrow> Record \<Rightarrow> spec_error + byte list" where
  "spec_Encode lib record =
     (case spec_payload lib (Value record) of
        Inl e \<Rightarrow> Inl e
      | Inr payload \<Rightarrow>
          (let L = length payload in
           if L < 8 then Inr (spec_header_byte False L (Type record) # payload)
           else
             (let lenbytes = intToBytesBE (of_nat L) in
              Inr (spec_header_byte True (length lenbytes) (Type record) # lenbytes @ payload))))"

subsection \<open>Decode\<close>

text \<open>
  The decoder of the package (the spec's Decode) is in a file other than record.go. The
  three definitions below follow section 4.1 of the spec step by step.
\<close>

text \<open>
  Modelled from the spec: reading bytes "as a big-endian integer" is missing from the
  sources with the decoder. The integer is read into a 64-bit int; a declared length is
  its unsigned value.
\<close>

definition be_int :: "byte list \<Rightarrow> goint" where
  "be_int bs = foldl (\<lambda>acc b. push_bit 8 acc OR ucast b) 0 bs"

text \<open>
  Modelled from the spec: the header reader of the missing decoder, steps 1 and 2 of
  Decode. The header byte gives the extended flag, the size field and the type tag; the
  result is the tag, the payload length L and the number of bytes read.
\<close>

definition read_header :: "byte list \<Rightarrow> spec_error + (byte \<times> nat \<times> nat)" where
  "read_header bs =
     (case bs of
        [] \<Rightarrow> Inl MalformedRecord
      | h # rest \<Rightarrow>
          (let sizefield = unat (drop_bit 4 h AND 7); tag = h AND 15 in
           if bit h 7 then
             (if length rest < sizefield then Inl MalformedRecord
              else Inr (tag, unat (be_int (take sizefield rest)), 1 + sizefield))
           else Inr (tag, sizefield, 1)))"

text \<open>
  Modelled from the spec: the missing decoder, steps 3 to 5 of Decode.
  \<open>Decode tg lib bs\<close> decodes the record at the start of \<open>bs\<close> (the input
  from the offset on) and returns it with the number of bytes consumed; the record's
  size is L. A Text payload that does not end in the terminator is malformed. A struct
  decodes pairs until its payload is used up; the key of a pair is a Text record. The
  test \<open>c1 + c2 = 0\<close> never holds (a record has at least its header byte); it is there
  for the recursion to be seen to terminate.
\<close>

function Decode :: "tags \<Rightarrow> golib \<Rightarrow> byte list \<Rightarrow> spec_error + (Record \<times> nat)"
  and decode_pairs :: "tags \<Rightarrow> golib \<Rightarrow> byte list \<Rightarrow> spec_error + StructItem list" where
  "Decode tg lib bs =
     (case read_header bs of
        Inl e \<Rightarrow> Inl e
      | Inr (tag, L, hl) \<Rightarrow>
          if length bs < hl + L then Inl MalformedRecord
          else if tag = TypeInt tg then
            Inr (Record (of_nat L) tag (VInt (be_int (take L (drop hl bs)))), hl + L)
          else if tag = TypeString tg then
            (if take L (drop hl bs) \<noteq> [] \<and> last (take L (drop hl bs)) = 0
             then Inr (Record (of_nat L) tag (VString (butlast (take L (drop hl bs)))), hl + L)
             else Inl MalformedRecord)
          else if tag = TypeDouble tg then
            Inr (Record (of_nat L) tag
                  (VDouble (div_float64 lib (float64_of_int lib (be_int (take L (drop hl bs))))
                     (float64_of_int lib 1000))), hl + L)
          else if tag = TypeStruct tg then
            (case decode_pairs tg lib (take L (drop hl bs)) of
               Inl e \<Rightarrow> Inl e
             | Inr items \<Rightarrow> Inr (Record (of_nat L) tag (VStruct items), hl + L))
          else Inl UnsupportedType)"
| "decode_pairs tg lib bs =
     (if bs = [] then Inr []
      else
        (case Decode tg lib bs of
           Inl e \<Rightarrow> Inl e
         | Inr (k, c1) \<Rightarrow>
             (if Type k \<noteq> TypeString tg then Inl MalformedRecord
              else
                (case asString (Value k) of
                   None \<Rightarrow> Inl MalformedRecord
                 | Some key \<Rightarrow>
                     (case Decode tg lib (drop c1 bs) of
                        Inl e \<Rightarrow> Inl e
                      | Inr (v, c2) \<Rightarrow>
                          if c1 + c2 = 0 then Inl MalformedRecord
                          else
                            (case decode_pairs tg lib (drop (c1 + c2) bs) of
                               Inl e \<Rightarrow> Inl e
                             | Inr items \<Rightarrow> Inr (StructItem key v # items)))))))"
  by pat_completeness auto
termination
  by (relation "measure (\<lambda>x. case x of Inl (tg, lib, bs) \<Rightarrow> 2 * length bs
                                     | Inr (tg, lib, bs) \<Rightarrow> 2 * length bs + 1)")
     (auto simp: read_header_def Let_def split: list.splits if_splits)

declare Decode.simps [simp del] decode_pairs.simps [simp del]

section \<open>An instance of the library for concrete runs\<close>

text \<open>
  To run the model on a concrete record the library parameter needs a value.
  \<open>demo_Itoa\<close> and \<open>demo_Atoi\<close> print and parse a 64-bit int in base 10 with an
  optional sign. The float64 operations of \<open>demo_lib\<close> are arbitrary total functions: no
  run below holds a float64, and every theorem is proved for all libraries.
\<close>

fun dec_digits :: "nat \<Rightarrow> nat \<Rightarrow> gostring" where
  "dec_digits 0 n = []"
| "dec_digits (Suc fuel) n =
     (if n < 10 then [of_nat (48 + n)]
      else dec_digits fuel (n div 10) @ [of_nat (48 + n mod 10)])"

definition demo_Itoa :: "goint \<Rightarrow> gostring" where
  "demo_Itoa n =
     (if sint n < 0 then 45 # dec_digits 20 (nat (- sint n)) else dec_digits 20 (nat (sint n)))"

fun parse_digits :: "gostring \<Rightarrow> int \<Rightarrow> int option" where
  "parse_digits [] acc = Some acc"
| "parse_digits (c # cs) acc =
     (if 48 \<le> c \<and> c \<le> 57 then parse_digits cs (10 * acc + (uint c - 48)) else None)"

definition demo_Atoi :: "gostring \<Rightarrow> error + goint" where
  "demo_Atoi s =
     (let neg = (s \<noteq> [] \<and> hd s = 45);
          ds = (if s \<noteq> [] \<and> (hd s = 45 \<or> hd s = 43) then tl s else s)
      in if ds = [] then Inl ErrSyntax
         else (case parse_digits ds 0 of
                 None \<Rightarrow> Inl ErrSyntax
               | Some n \<Rightarrow>
                   if neg then (if n \<le> 2 ^ 63 then Inr (- of_int n) else Inl ErrRange)
                   else (if n < 2 ^ 63 then Inr (of_int n) else Inl ErrRange)))"

definition demo_lib :: golib where
  "demo_lib =
     \<lparr>Itoa = demo_Itoa, Atoi = demo_Atoi, ParseFloat = (\<lambda>s. Inl ErrSyntax),
      Sprintf_3f = (\<lambda>x. []), float64_of_int = (\<lambda>n. n), int_of_float64 = (\<lambda>x. x),
      mul_float64 = (\<lambda>x y. x), div_float64 = (\<lambda>x y. x)\<rparr>"

section \<open>Properties\<close>

subsection \<open>Auxiliary facts\<close>

text \<open>The tags are pairwise different, and the protocol's tags are well-formed.\<close>

lemma binrpc_tags_wf: "wf_tags binrpc_tags"
  by (simp add: wf_tags_def binrpc_tags_def)

lemma wf_tags_distinct:
  "wf_tags tg \<Longrightarrow>
     TypeInt tg \<noteq> TypeString tg \<and> TypeInt tg \<noteq> TypeDouble tg \<and> TypeInt tg \<noteq> TypeStruct tg \<and>
     TypeString tg \<noteq> TypeDouble tg \<and> TypeString tg \<noteq> TypeStruct tg \<and>
     TypeDouble tg \<noteq> TypeStruct tg \<and>
     TypeString tg \<noteq> TypeInt tg \<and> TypeDouble tg \<noteq> TypeInt tg \<and> TypeStruct tg \<noteq> TypeInt tg \<and>
     TypeDouble tg \<noteq> TypeString tg \<and> TypeStruct tg \<noteq> TypeString tg \<and>
     TypeStruct tg \<noteq> TypeDouble tg"
  by (auto simp: wf_tags_def)

lemma assigned_record: "fst (snd (assigned record dest ptr out)) = record"
  by (cases out) (simp_all add: assigned_def)

lemma assigned_not_error: "fst (assigned record dest ptr out) \<noteq> Return (Some e)"
  by (cases out) (simp_all add: assigned_def)

text \<open>Reading back the bytes of \<open>intToBytesBE\<close> gives the integer.\<close>

lemma be_int_Cons0: "be_int (0 # bs) = be_int bs"
  by (simp add: be_int_def)

lemma be_int_dropWhile: "be_int (dropWhile (\<lambda>b. b = 0) bs) = be_int bs"
  by (induction bs) (simp_all add: be_int_Cons0)

lemma foldl_be_bytes:
  "foldl (\<lambda>acc b. push_bit 8 acc OR ucast b) acc (be_bytes k n)
     = push_bit (8 * k) acc OR take_bit (8 * k) n"
proof (induction k arbitrary: acc)
  case 0
  then show ?case by simp
next
  case (Suc k)
  show ?case
    apply (simp add: Suc.IH)
    apply (rule bit_word_eqI)
    apply (auto simp: bit_simps add.commute not_less)
    done
qed

lemma length_be_bytes: "length (be_bytes k n) = k"
  by (induction k) simp_all

lemma be_int_intToBytesBE: "be_int (intToBytesBE n) = n"
proof -
  have "take_bit 64 n = n" by (rule take_bit_word_eq_self) simp
  then have "be_int (be_bytes 8 n) = n"
    by (simp add: be_int_def foldl_be_bytes del: be_bytes.simps)
  then show ?thesis by (simp add: intToBytesBE_def be_int_dropWhile)
qed

lemma length_intToBytesBE_le: "length (intToBytesBE n) \<le> 8"
  unfolding intToBytesBE_def
  using length_dropWhile_le [of "\<lambda>b. b = 0" "be_bytes 8 n"] by (simp only: length_be_bytes)

lemma intToBytesBE_0: "intToBytesBE 0 = []"
  by (simp add: intToBytesBE_def eval_nat_numeral)

lemma intToBytesBE_Nil_iff: "intToBytesBE n = [] \<longleftrightarrow> n = 0"
proof
  assume "intToBytesBE n = []"
  then have "be_int (intToBytesBE n) = 0" by (simp add: be_int_def)
  then show "n = 0" by (simp add: be_int_intToBytesBE)
qed (simp add: intToBytesBE_0)

lemma hd_intToBytesBE: "intToBytesBE n \<noteq> [] \<Longrightarrow> hd (intToBytesBE n) \<noteq> 0"
  unfolding intToBytesBE_def by (rule hd_dropWhile)

lemma be_bytes_8: "be_bytes 8 n = ucast (drop_bit 56 n) # be_bytes 7 n"
  by (simp add: eval_nat_numeral)

lemma length_intToBytesBE_small:
  assumes "n < 2 ^ 56"
  shows "length (intToBytesBE n) \<le> 7"
proof -
  have "n AND mask 56 = n" using assms by (rule less_mask_eq)
  then have "take_bit 56 n = n" by (simp add: take_bit_eq_mask)
  then have "drop_bit 56 n = 0" by (simp add: take_bit_eq_self_iff_drop_bit_eq_0)
  then have "intToBytesBE n = dropWhile (\<lambda>b. b = 0) (be_bytes 7 n)"
    by (simp add: intToBytesBE_def be_bytes_8 del: be_bytes.simps)
  then show ?thesis
    using length_dropWhile_le [of "\<lambda>b. b = 0" "be_bytes 7 n"] by (simp only: length_be_bytes)
qed

lemma of_nat_small:
  assumes "L < 2 ^ 56"
  shows "(of_nat L :: goint) < 2 ^ 56" and "unat (of_nat L :: goint) = L"
proof -
  have "L < 2 ^ 64" using assms by (rule less_trans) simp
  then show u: "unat (of_nat L :: goint) = L" by (simp add: unat_of_nat)
  show "(of_nat L :: goint) < 2 ^ 56" using assms by (simp add: word_less_nat_alt u)
qed

text \<open>The fields of a header byte built from a flag, a size below 8 and a tag below 16.\<close>

lemma mask3: "(7 :: byte) = mask 3" by (simp add: mask_eq_exp_minus_1)
lemma mask4: "(15 :: byte) = mask 4" by (simp add: mask_eq_exp_minus_1)

lemma tag_mask: "(ty :: byte) < 16 \<Longrightarrow> ty AND mask 4 = ty"
  by (rule less_mask_eq) simp

lemma nat_lt8_bit: "K < (8::nat) \<Longrightarrow> bit K i \<Longrightarrow> i < 3"
proof -
  assume K: "K < 8" and b: "bit K i"
  have "take_bit 3 K = K" using K by (simp add: take_bit_nat_eq_self)
  then have "bit (take_bit 3 K) i" using b by simp
  then show "i < 3" by (simp add: bit_take_bit_iff)
qed

lemma hdr_size:
  fixes ty :: byte
  assumes ty: "ty < 16" and K: "K < 8"
  shows "drop_bit 4 (push_bit 7 f OR of_nat (push_bit 4 K) OR ty) AND 7 = of_nat K"
proof -
  have t: "ty = ty AND mask 4" using ty by (simp add: tag_mask)
  show ?thesis
    apply (subst t)
    apply (simp only: mask3)
    apply (rule bit_word_eqI)
    using K apply (auto simp: bit_simps dest: nat_lt8_bit)
    done
qed

lemma hdr_tag:
  fixes ty :: byte
  assumes ty: "ty < 16" and K: "K < 8"
  shows "(push_bit 7 f OR of_nat (push_bit 4 K) OR ty) AND 15 = ty"
proof -
  have t: "ty = ty AND mask 4" using ty by (simp add: tag_mask)
  show ?thesis
    apply (subst (2) t, subst t)
    apply (simp only: mask4)
    apply (rule bit_word_eqI)
    using K apply (auto simp: bit_simps dest: nat_lt8_bit)
    done
qed

lemma hdr_flag:
  fixes ty :: byte
  assumes ty: "ty < 16" and K: "K < 8"
  shows "bit (push_bit 7 f OR of_nat (push_bit 4 K) OR ty) 7 = bit f 0"
proof -
  have t: "ty = ty AND mask 4" using ty by (simp add: tag_mask)
  show ?thesis
    apply (subst t)
    using K apply (auto simp: bit_simps dest: nat_lt8_bit)
    done
qed

lemma unat_hdr_size:
  fixes ty :: byte
  assumes ty: "ty < 16" and K: "K < 8"
  shows "unat (drop_bit 4 (push_bit 7 f OR of_nat (push_bit 4 K) OR ty) AND 7) = K"
proof -
  have "unat (of_nat K :: byte) = K" using K by (simp add: unat_of_nat)
  then show ?thesis by (simp only: hdr_size [OF ty K])
qed

text \<open>The two forms of the frame, and what the decoder reads from a frame.\<close>

lemma frame_short:
  "length v < 8 \<Longrightarrow> frame ty v = (push_bit 7 0 OR of_nat (push_bit 4 (length v)) OR ty) # v"
  by (simp add: frame_def)

lemma frame_extended:
  "\<not> length v < 8 \<Longrightarrow>
     frame ty v = (push_bit 7 1 OR of_nat (push_bit 4 (length (intToBytesBE (of_nat (length v))))) OR ty)
                    # intToBytesBE (of_nat (length v)) @ v"
  by (simp add: frame_def Let_def)

lemma read_header_frame:
  assumes ty: "ty < 16" and len: "length v < 2 ^ 56"
  shows "\<exists>hl. read_header (frame ty v @ rest) = Inr (ty, length v, hl) \<and>
              length (frame ty v) = hl + length v \<and>
              drop hl (frame ty v @ rest) = v @ rest"
proof (cases "length v < 8")
  case True
  let ?h = "push_bit 7 0 OR of_nat (push_bit 4 (length v)) OR ty"
  have "read_header (?h # v @ rest) = Inr (ty, length v, 1)"
    unfolding read_header_def
    by (simp only: list.case Let_def hdr_flag [OF ty True] unat_hdr_size [OF ty True]
        hdr_tag [OF ty True]) simp
  then show ?thesis by (simp add: frame_short [OF True])
next
  case False
  let ?sb = "intToBytesBE (of_nat (length v))"
  let ?K = "length ?sb"
  let ?h = "push_bit 7 1 OR of_nat (push_bit 4 ?K) OR ty"
  have K: "?K < 8"
    using length_intToBytesBE_small [OF of_nat_small(1) [OF len]] by simp
  have L: "unat (be_int ?sb) = length v"
    by (simp add: be_int_intToBytesBE of_nat_small(2) [OF len])
  have "read_header (?h # ?sb @ v @ rest) = Inr (ty, length v, 1 + ?K)"
    unfolding read_header_def
    by (simp only: list.case Let_def hdr_flag [OF ty K] unat_hdr_size [OF ty K]
        hdr_tag [OF ty K]) (simp add: L)
  then show ?thesis by (simp add: frame_extended [OF False])
qed

lemma Decode_frame_Int:
  assumes ty: "TypeInt tg < 16" and len: "length v < 2 ^ 56"
  shows "Decode tg lib (frame (TypeInt tg) v @ rest)
           = Inr (Record (of_nat (length v)) (TypeInt tg) (VInt (be_int v)), length (frame (TypeInt tg) v))"
proof -
  from read_header_frame [OF ty len, of rest] obtain hl where
    h: "read_header (frame (TypeInt tg) v @ rest) = Inr (TypeInt tg, length v, hl)"
    and l: "length (frame (TypeInt tg) v) = hl + length v"
    and d: "drop hl (frame (TypeInt tg) v @ rest) = v @ rest" by blast
  have p: "take (length v) (drop hl (frame (TypeInt tg) v @ rest)) = v"
    by (simp only: d) simp
  have n: "\<not> length (frame (TypeInt tg) v @ rest) < hl + length v"
    using l by simp
  show ?thesis
    apply (subst Decode.simps)
    apply (simp only: h p n l sum.case prod.case if_False)
    apply simp
    done
qed

lemma Decode_frame_String:
  assumes wf: "wf_tags tg" and len: "length (s @ [0]) < 2 ^ 56"
  shows "Decode tg lib (frame (TypeString tg) (s @ [0]) @ rest)
           = Inr (Record (of_nat (length (s @ [0]))) (TypeString tg) (VString s),
                  length (frame (TypeString tg) (s @ [0])))"
proof -
  have ty: "TypeString tg < 16" using wf by (simp add: wf_tags_def)
  from read_header_frame [OF ty len, of rest] obtain hl where
    h: "read_header (frame (TypeString tg) (s @ [0]) @ rest) = Inr (TypeString tg, length (s @ [0]), hl)"
    and l: "length (frame (TypeString tg) (s @ [0])) = hl + length (s @ [0])"
    and d: "drop hl (frame (TypeString tg) (s @ [0]) @ rest) = (s @ [0]) @ rest" by blast
  have p: "take (length (s @ [0])) (drop hl (frame (TypeString tg) (s @ [0]) @ rest)) = s @ [0]"
    by (simp only: d) simp
  have n: "\<not> length (frame (TypeString tg) (s @ [0]) @ rest) < hl + length (s @ [0])"
    using l by simp
  have ne: "TypeString tg \<noteq> TypeInt tg" using wf_tags_distinct [OF wf] by simp
  have q: "s @ [0] \<noteq> [] \<and> last (s @ [0::byte]) = 0" "butlast (s @ [0::byte]) = s" by simp_all
  show ?thesis
    apply (subst Decode.simps)
    apply (simp only: h p n l ne q sum.case prod.case if_False)
    apply simp
    done
qed

lemma frame_Nil: "frame ty [] = [ty]"
  by (simp add: frame_def)

lemma frame_layout:
  fixes ty :: byte
  assumes ty: "ty < 16" and len: "length p < 2 ^ 56"
  shows "if length p < 8
         then frame ty p = (push_bit 4 (of_nat (length p)) OR ty) # p \<and>
              \<not> bit (push_bit 4 (of_nat (length p)) OR ty) 7
         else \<exists>hdr. frame ty p = hdr # intToBytesBE (of_nat (length p)) @ p \<and>
                bit hdr 7 \<and>
                unat (drop_bit 4 hdr AND 7) = length (intToBytesBE (of_nat (length p))) \<and>
                hdr AND 15 = ty \<and>
                unat (be_int (intToBytesBE (of_nat (length p)))) = length p \<and>
                hd (intToBytesBE (of_nat (length p))) \<noteq> 0"
proof (cases "length p < 8")
  case True
  have "\<not> bit (push_bit 7 0 OR of_nat (push_bit 4 (length p)) OR ty) 7"
    by (simp only: hdr_flag [OF ty True]) simp
  then show ?thesis using True by (simp add: frame_short push_bit_of_nat)
next
  case False
  let ?sb = "intToBytesBE (of_nat (length p))"
  have K: "length ?sb < 8"
    using length_intToBytesBE_small [OF of_nat_small(1) [OF len]] by simp
  have L: "unat (be_int ?sb) = length p"
    by (simp add: be_int_intToBytesBE of_nat_small(2) [OF len])
  have "?sb \<noteq> []"
  proof
    assume "?sb = []"
    then have "unat (be_int ?sb) = 0" by (simp add: be_int_def)
    with L False show False by simp
  qed
  then have hd: "hd ?sb \<noteq> 0" by (rule hd_intToBytesBE)
  have b: "bit (push_bit 7 1 OR of_nat (push_bit 4 (length ?sb)) OR ty) 7"
    by (simp only: hdr_flag [OF ty K]) simp
  show ?thesis
    using False b unat_hdr_size [OF ty K, of 1] hdr_tag [OF ty K, of 1] L hd
    by (simp add: frame_extended)
qed

text \<open>Unfolding rules for concrete runs.\<close>

lemma be_bytes_numeral:
  "be_bytes (numeral k) n = ucast (drop_bit (8 * pred_numeral k) n) # be_bytes (pred_numeral k) n"
  by (simp add: numeral_eq_Suc)

lemma be_bytes_8_unfold:
  "be_bytes 8 n = [ucast (drop_bit 56 n), ucast (drop_bit 48 n), ucast (drop_bit 40 n),
     ucast (drop_bit 32 n), ucast (drop_bit 24 n), ucast (drop_bit 16 n), ucast (drop_bit 8 n),
     ucast n]"
  by (simp add: be_bytes_numeral)

lemma intToBytesBE_unfold:
  "intToBytesBE n = dropWhile (\<lambda>b. b = 0)
     [ucast (drop_bit 56 n), ucast (drop_bit 48 n), ucast (drop_bit 40 n),
      ucast (drop_bit 32 n), ucast (drop_bit 24 n), ucast (drop_bit 16 n), ucast (drop_bit 8 n),
      ucast n]"
  by (simp only: intToBytesBE_def be_bytes_8_unfold)

lemma dec_digits_numeral:
  "dec_digits (numeral k) n =
     (if n < 10 then [of_nat (48 + n)]
      else dec_digits (pred_numeral k) (n div 10) @ [of_nat (48 + n mod 10)])"
  by (simp add: numeral_eq_Suc)

subsection \<open>The strict accessors and Scan\<close>

text \<open>
  Claim C8. For a record whose \<open>Value\<close> has the dynamic type its \<open>Type\<close> announces,
  each strict accessor (String, Int, Double, StructItems) returns an error exactly when
  \<open>Type\<close> is not the accessor's tag; on its own tag it returns the stored value as it is,
  with a nil error.
\<close>

theorem strict_accessors:
  assumes wf: "wf_tags tg" and ok: "record_ok tg record"
  shows
    "(returns_error (fst (Record_String tg record)) \<longleftrightarrow> Type record \<noteq> TypeString tg) \<and>
     (Type record = TypeString tg \<longrightarrow>
        (\<exists>s. Value record = VString s \<and> fst (Record_String tg record) = Return (s, None))) \<and>
     (returns_error (fst (Record_Int tg record)) \<longleftrightarrow> Type record \<noteq> TypeInt tg) \<and>
     (Type record = TypeInt tg \<longrightarrow>
        (\<exists>n. Value record = VInt n \<and> fst (Record_Int tg record) = Return (n, None))) \<and>
     (returns_error (fst (Record_Double tg record)) \<longleftrightarrow> Type record \<noteq> TypeDouble tg) \<and>
     (Type record = TypeDouble tg \<longrightarrow>
        (\<exists>x. Value record = VDouble x \<and> fst (Record_Double tg record) = Return (x, None))) \<and>
     (returns_error (fst (Record_StructItems tg record)) \<longleftrightarrow> Type record \<noteq> TypeStruct tg) \<and>
     (Type record = TypeStruct tg \<longrightarrow>
        (\<exists>items. Value record = VStruct items \<and>
           fst (Record_StructItems tg record) = Return (items, None)))"
proof -
  note d = wf_tags_distinct [OF wf]
  show ?thesis
  proof (cases "Value record")
    case (VString s)
    with ok d show ?thesis
      by (simp add: record_ok_def Record_String_def Record_Int_def Record_Double_def
          Record_StructItems_def)
  next
    case (VInt n)
    with ok d show ?thesis
      by (simp add: record_ok_def Record_String_def Record_Int_def Record_Double_def
          Record_StructItems_def)
  next
    case (VDouble x)
    with ok d show ?thesis
      by (simp add: record_ok_def Record_String_def Record_Int_def Record_Double_def
          Record_StructItems_def)
  next
    case (VStruct items)
    with ok d show ?thesis
      by (simp add: record_ok_def Record_String_def Record_Int_def Record_Double_def
          Record_StructItems_def)
  next
    case VOther
    with ok show ?thesis
      by (simp add: record_ok_def Record_String_def Record_Int_def Record_Double_def
          Record_StructItems_def)
  qed
qed

theorem strict_accessors_witness:
  "wf_tags binrpc_tags \<and> record_ok binrpc_tags (Record 0 1 (VString [0x6f, 0x6b])) \<and>
   fst (Record_String binrpc_tags (Record 0 1 (VString [0x6f, 0x6b]))) = Return ([0x6f, 0x6b], None) \<and>
   returns_error (fst (Record_Int binrpc_tags (Record 0 1 (VString [0x6f, 0x6b])))) \<and>
   returns_error (fst (Record_Double binrpc_tags (Record 0 1 (VString [0x6f, 0x6b])))) \<and>
   returns_error (fst (Record_StructItems binrpc_tags (Record 0 1 (VString [0x6f, 0x6b]))))"
proof -
  have ok: "record_ok binrpc_tags (Record 0 1 (VString [0x6f, 0x6b]))"
    by (simp add: record_ok_def binrpc_tags_def)
  have t: "Type (Record 0 1 (VString [0x6f, 0x6b])) = TypeString binrpc_tags"
          "Type (Record 0 1 (VString [0x6f, 0x6b])) \<noteq> TypeInt binrpc_tags"
          "Type (Record 0 1 (VString [0x6f, 0x6b])) \<noteq> TypeDouble binrpc_tags"
          "Type (Record 0 1 (VString [0x6f, 0x6b])) \<noteq> TypeStruct binrpc_tags"
    by (simp_all add: binrpc_tags_def)
  from strict_accessors [OF binrpc_tags_wf ok] t binrpc_tags_wf ok
  show ?thesis by auto
qed

text \<open>
  Claim C9. A call of Scan (whatever the destination, and whether the call returns nil,
  returns an error or panics) and a call of a strict accessor leave the record as it
  was: the record after the call is the record before the call, with its \<open>size\<close>,
  \<open>Type\<close> and \<open>Value\<close>.
\<close>

theorem record_unchanged:
  "fst (snd (Record_Scan tg lib record dest)) = record \<and>
   snd (Record_String tg record) = record \<and>
   snd (Record_Int tg record) = record \<and>
   snd (Record_Double tg record) = record \<and>
   snd (Record_StructItems tg record) = record"
proof -
  have "fst (snd (Record_Scan tg lib record dest)) = record"
    by (cases dest) (simp_all add: Record_Scan_def assigned_record split: option.split sum.split)
  moreover have "snd (Record_String tg record) = record"
    by (simp add: Record_String_def split: option.split)
  moreover have "snd (Record_Int tg record) = record"
    by (simp add: Record_Int_def split: option.split)
  moreover have "snd (Record_Double tg record) = record"
    by (simp add: Record_Double_def split: option.split)
  moreover have "snd (Record_StructItems tg record) = record"
    by (simp add: Record_StructItems_def split: option.split)
  ultimately show ?thesis by simp
qed

theorem record_unchanged_witness:
  "fst (snd (Record_Scan binrpc_tags demo_lib (Record 0 0 (VInt 42)) (PInt (Some 0))))
     = Record 0 0 (VInt 42) \<and>
   snd (Record_Int binrpc_tags (Record 0 0 (VInt 42))) = Record 0 0 (VInt 42)"
  using record_unchanged [of binrpc_tags demo_lib "Record 0 0 (VInt 42)" "PInt (Some 0)"]
  by simp

text \<open>
  Claim C10. When Scan is asked to turn a String record into an \<open>*int\<close> or a
  \<open>*float64\<close> and strconv.Atoi or strconv.ParseFloat rejects the string, Scan returns
  that error and the variable behind \<open>dest\<close> keeps its value. More generally, whenever
  Scan returns an error the destination is as it was before the call.
\<close>

theorem Scan_error_keeps_dest:
  "(Type record = TypeString tg \<and> Value record = VString s \<and> Atoi lib s = Inl err \<longrightarrow>
      Record_Scan tg lib record (PInt i) = (Return (Some err), record, PInt i)) \<and>
   (Type record = TypeString tg \<and> Value record = VString s \<and> ParseFloat lib s = Inl err \<longrightarrow>
      Record_Scan tg lib record (PFloat64 f) = (Return (Some err), record, PFloat64 f)) \<and>
   (fst (Record_Scan tg lib record dest) = Return (Some e) \<longrightarrow>
      snd (snd (Record_Scan tg lib record dest)) = dest)"
proof (intro conjI impI)
  assume "Type record = TypeString tg \<and> Value record = VString s \<and> Atoi lib s = Inl err"
  then show "Record_Scan tg lib record (PInt i) = (Return (Some err), record, PInt i)"
    by (simp add: Record_Scan_def)
next
  assume "Type record = TypeString tg \<and> Value record = VString s \<and> ParseFloat lib s = Inl err"
  then show "Record_Scan tg lib record (PFloat64 f) = (Return (Some err), record, PFloat64 f)"
    by (simp add: Record_Scan_def)
next
  assume "fst (Record_Scan tg lib record dest) = Return (Some e)"
  then show "snd (snd (Record_Scan tg lib record dest)) = dest"
    by (cases dest)
       (auto simp: Record_Scan_def assigned_not_error split: if_splits option.splits sum.splits)
qed

theorem Scan_error_keeps_dest_witness:
  "Record_Scan binrpc_tags demo_lib (Record 0 1 (VString [0x31, 0x78])) (PInt (Some 7))
     = (Return (Some ErrSyntax), Record 0 1 (VString [0x31, 0x78]), PInt (Some 7))"
proof -
  have a: "Atoi demo_lib [0x31, 0x78] = Inl ErrSyntax"
    by (simp add: demo_lib_def demo_Atoi_def)
  have t: "Type (Record 0 1 (VString [0x31, 0x78])) = TypeString binrpc_tags"
    by (simp add: binrpc_tags_def)
  from Scan_error_keeps_dest [of "Record 0 1 (VString [0x31, 0x78])" binrpc_tags "[0x31, 0x78]"
      demo_lib ErrSyntax "Some 7"] a t
  show ?thesis by simp
qed

text \<open>
  Claim C7. For a record that satisfies the data-model invariant and a destination that
  is not nil, Scan does these conversions and no others. Into a \<open>*string\<close>: a String is
  copied, an Integer is printed by strconv.Itoa, a Double by the format "%.3f". Into an
  \<open>*int\<close>: a String is parsed by strconv.Atoi, an Integer is copied. Into a
  \<open>*float64\<close>: a String is parsed by strconv.ParseFloat, an Integer is widened, a Double
  is copied. Into a \<open>*[]StructItem\<close>: the items of a Struct are copied. Every other pair
  of record kind and target (a Struct into a scalar, a scalar into \<open>*[]StructItem\<close>, a
  Double into \<open>*int\<close>, a record of an unknown type into anything) returns the
  conversion error and leaves the destination alone. The failures named last depend on
  the record's \<open>Type\<close> only: they hold for a nil destination and for any \<open>Value\<close> too.
\<close>

theorem Scan_coercions:
  assumes wf: "wf_tags tg" and ok: "record_ok tg record"
  shows
    "Record_Scan tg lib record (PString (Some d1)) =
       (case Value record of
          VString s \<Rightarrow> (Return None, record, PString (Some s))
        | VInt n \<Rightarrow> (Return None, record, PString (Some (Itoa lib n)))
        | VDouble x \<Rightarrow> (Return None, record, PString (Some (Sprintf_3f lib x)))
        | _ \<Rightarrow> (Return (Some (ErrCannotConvert (Type record) KString)), record,
                 PString (Some d1))) \<and>
     Record_Scan tg lib record (PInt (Some d2)) =
       (case Value record of
          VString s \<Rightarrow>
            (case Atoi lib s of
               Inr n \<Rightarrow> (Return None, record, PInt (Some n))
             | Inl err \<Rightarrow> (Return (Some err), record, PInt (Some d2)))
        | VInt n \<Rightarrow> (Return None, record, PInt (Some n))
        | _ \<Rightarrow> (Return (Some (ErrCannotConvert (Type record) KInt)), record, PInt (Some d2))) \<and>
     Record_Scan tg lib record (PFloat64 (Some d3)) =
       (case Value record of
          VString s \<Rightarrow>
            (case ParseFloat lib s of
               Inr x \<Rightarrow> (Return None, record, PFloat64 (Some x))
             | Inl err \<Rightarrow> (Return (Some err), record, PFloat64 (Some d3)))
        | VInt n \<Rightarrow> (Return None, record, PFloat64 (Some (float64_of_int lib n)))
        | VDouble x \<Rightarrow> (Return None, record, PFloat64 (Some x))
        | _ \<Rightarrow> (Return (Some (ErrCannotConvert (Type record) KDouble)), record,
                 PFloat64 (Some d3))) \<and>
     Record_Scan tg lib record (PStructItems (Some d4)) =
       (case Value record of
          VStruct items \<Rightarrow> (Return None, record, PStructItems (Some items))
        | _ \<Rightarrow> (Return (Some (ErrCannotConvert (Type record) KStructItems)), record,
                 PStructItems (Some d4))) \<and>
     (Type record = TypeStruct tg \<longrightarrow>
        Record_Scan tg lib record (PString p1) =
          (Return (Some (ErrCannotConvert (Type record) KString)), record, PString p1) \<and>
        Record_Scan tg lib record (PInt p2) =
          (Return (Some (ErrCannotConvert (Type record) KInt)), record, PInt p2) \<and>
        Record_Scan tg lib record (PFloat64 p3) =
          (Return (Some (ErrCannotConvert (Type record) KDouble)), record, PFloat64 p3)) \<and>
     (Type record \<noteq> TypeStruct tg \<longrightarrow>
        Record_Scan tg lib record (PStructItems p4) =
          (Return (Some (ErrCannotConvert (Type record) KStructItems)), record, PStructItems p4)) \<and>
     (Type record = TypeDouble tg \<longrightarrow>
        Record_Scan tg lib record (PInt p2) =
          (Return (Some (ErrCannotConvert (Type record) KInt)), record, PInt p2))"
proof -
  note d = wf_tags_distinct [OF wf]
  have table: "Record_Scan tg lib record (PString (Some d1)) =
       (case Value record of
          VString s \<Rightarrow> (Return None, record, PString (Some s))
        | VInt n \<Rightarrow> (Return None, record, PString (Some (Itoa lib n)))
        | VDouble x \<Rightarrow> (Return None, record, PString (Some (Sprintf_3f lib x)))
        | _ \<Rightarrow> (Return (Some (ErrCannotConvert (Type record) KString)), record,
                 PString (Some d1))) \<and>
     Record_Scan tg lib record (PInt (Some d2)) =
       (case Value record of
          VString s \<Rightarrow>
            (case Atoi lib s of
               Inr n \<Rightarrow> (Return None, record, PInt (Some n))
             | Inl err \<Rightarrow> (Return (Some err), record, PInt (Some d2)))
        | VInt n \<Rightarrow> (Return None, record, PInt (Some n))
        | _ \<Rightarrow> (Return (Some (ErrCannotConvert (Type record) KInt)), record, PInt (Some d2))) \<and>
     Record_Scan tg lib record (PFloat64 (Some d3)) =
       (case Value record of
          VString s \<Rightarrow>
            (case ParseFloat lib s of
               Inr x \<Rightarrow> (Return None, record, PFloat64 (Some x))
             | Inl err \<Rightarrow> (Return (Some err), record, PFloat64 (Some d3)))
        | VInt n \<Rightarrow> (Return None, record, PFloat64 (Some (float64_of_int lib n)))
        | VDouble x \<Rightarrow> (Return None, record, PFloat64 (Some x))
        | _ \<Rightarrow> (Return (Some (ErrCannotConvert (Type record) KDouble)), record,
                 PFloat64 (Some d3))) \<and>
     Record_Scan tg lib record (PStructItems (Some d4)) =
       (case Value record of
          VStruct items \<Rightarrow> (Return None, record, PStructItems (Some items))
        | _ \<Rightarrow> (Return (Some (ErrCannotConvert (Type record) KStructItems)), record,
                 PStructItems (Some d4)))"
  proof (cases "Value record")
    case (VString s)
    with ok d show ?thesis
      by (simp add: record_ok_def Record_Scan_def assigned_def store_def split: sum.split)
  next
    case (VInt n)
    with ok d show ?thesis
      by (simp add: record_ok_def Record_Scan_def assigned_def store_def)
  next
    case (VDouble x)
    with ok d show ?thesis
      by (simp add: record_ok_def Record_Scan_def assigned_def store_def)
  next
    case (VStruct items)
    with ok d show ?thesis
      by (simp add: record_ok_def Record_Scan_def assigned_def store_def)
  next
    case VOther
    with ok show ?thesis
      by (simp add: record_ok_def Record_Scan_def assigned_def store_def)
  qed
  have struct: "Type record = TypeStruct tg \<longrightarrow>
        Record_Scan tg lib record (PString p1) =
          (Return (Some (ErrCannotConvert (Type record) KString)), record, PString p1) \<and>
        Record_Scan tg lib record (PInt p2) =
          (Return (Some (ErrCannotConvert (Type record) KInt)), record, PInt p2) \<and>
        Record_Scan tg lib record (PFloat64 p3) =
          (Return (Some (ErrCannotConvert (Type record) KDouble)), record, PFloat64 p3)"
    using d by (simp add: Record_Scan_def)
  have items: "Type record \<noteq> TypeStruct tg \<longrightarrow>
        Record_Scan tg lib record (PStructItems p4) =
          (Return (Some (ErrCannotConvert (Type record) KStructItems)), record, PStructItems p4)"
    by (simp add: Record_Scan_def)
  have dbl: "Type record = TypeDouble tg \<longrightarrow>
        Record_Scan tg lib record (PInt p2) =
          (Return (Some (ErrCannotConvert (Type record) KInt)), record, PInt p2)"
    using d by (simp add: Record_Scan_def)
  from table struct items dbl show ?thesis by (intro conjI) simp_all
qed

theorem Scan_coercions_witness:
  "wf_tags binrpc_tags \<and> record_ok binrpc_tags (Record 0 0 (VInt 42)) \<and>
   Record_Scan binrpc_tags demo_lib (Record 0 0 (VInt 42)) (PString (Some [])) =
     (Return None, Record 0 0 (VInt 42), PString (Some [0x34, 0x32])) \<and>
   Record_Scan binrpc_tags demo_lib (Record 0 0 (VInt 42)) (PStructItems (Some [])) =
     (Return (Some (ErrCannotConvert 0 KStructItems)), Record 0 0 (VInt 42), PStructItems (Some []))"
proof -
  have ok: "record_ok binrpc_tags (Record 0 0 (VInt 42))"
    by (simp add: record_ok_def binrpc_tags_def)
  have i: "Itoa demo_lib 42 = [0x34, 0x32]"
    by (simp add: demo_lib_def demo_Itoa_def dec_digits_numeral)
  have "Record_Scan binrpc_tags demo_lib (Record 0 0 (VInt 42)) (PString (Some [])) =
          (Return None, Record 0 0 (VInt 42), PString (Some (Itoa demo_lib 42))) \<and>
        Record_Scan binrpc_tags demo_lib (Record 0 0 (VInt 42)) (PStructItems (Some [])) =
          (Return (Some (ErrCannotConvert 0 KStructItems)), Record 0 0 (VInt 42),
           PStructItems (Some []))"
    using Scan_coercions [OF binrpc_tags_wf ok, where lib = demo_lib and ?d1.0 = "[]"
        and ?d4.0 = "[]"]
    by simp
  with binrpc_tags_wf ok i show ?thesis by simp
qed

subsection \<open>Encode\<close>

text \<open>
  Claim C6. For a record whose type is Struct, or any tag other than Integer, String and
  Double, Encode returns the error "type ... not implemented" and the writer is as it
  was: nothing is written. So a record that Encode encodes has one of the three scalar
  types.
\<close>

theorem Encode_unsupported:
  assumes wf: "wf_tags tg"
  shows "((Type record = TypeStruct tg \<or>
           (Type record \<noteq> TypeInt tg \<and> Type record \<noteq> TypeString tg \<and>
            Type record \<noteq> TypeDouble tg)) \<longrightarrow>
          Record_Encode tg lib Write w record = (Some (ErrNotImplemented (Type record)), w)) \<and>
         (fst (Record_Encode tg lib Write w record) = None \<longrightarrow>
          Type record = TypeInt tg \<or> Type record = TypeString tg \<or> Type record = TypeDouble tg)"
proof (intro conjI impI)
  assume ty: "Type record = TypeStruct tg \<or>
           (Type record \<noteq> TypeInt tg \<and> Type record \<noteq> TypeString tg \<and>
            Type record \<noteq> TypeDouble tg)"
  with wf_tags_distinct [OF wf]
  have "Type record \<noteq> TypeInt tg \<and> Type record \<noteq> TypeString tg \<and> Type record \<noteq> TypeDouble tg"
    by auto
  then show "Record_Encode tg lib Write w record = (Some (ErrNotImplemented (Type record)), w)"
    by (simp add: Record_Encode_def encode_switch_def)
next
  assume ok: "fst (Record_Encode tg lib Write w record) = None"
  show "Type record = TypeInt tg \<or> Type record = TypeString tg \<or> Type record = TypeDouble tg"
  proof (rule ccontr)
    assume "\<not> (Type record = TypeInt tg \<or> Type record = TypeString tg \<or>
                Type record = TypeDouble tg)"
    then have "Record_Encode tg lib Write w record = (Some (ErrNotImplemented (Type record)), w)"
      by (simp add: Record_Encode_def encode_switch_def)
    with ok show False by simp
  qed
qed

theorem Encode_unsupported_witness:
  "wf_tags binrpc_tags \<and>
   Type (Record 0 3 (VStruct [StructItem [0x61] (Record 0 0 (VInt 1))])) = TypeStruct binrpc_tags \<and>
   Record_Encode binrpc_tags demo_lib buffer_Write [7]
       (Record 0 3 (VStruct [StructItem [0x61] (Record 0 0 (VInt 1))]))
     = (Some (ErrNotImplemented 3), [7])"
proof -
  have t: "Type (Record 0 3 (VStruct [StructItem [0x61] (Record 0 0 (VInt 1))])) = TypeStruct binrpc_tags"
    by (simp add: binrpc_tags_def)
  from Encode_unsupported [OF binrpc_tags_wf,
      of "Record 0 3 (VStruct [StructItem [0x61] (Record 0 0 (VInt 1))])" demo_lib buffer_Write "[7]"]
    t binrpc_tags_wf
  show ?thesis by simp
qed

text \<open>
  Claim C2. Let Encode succeed on a record, writing \<open>out\<close> to a buffer that held \<open>w\<close>,
  and let L be the length of the record's payload (for a Go value, less than \<open>2 ^ 56\<close>
  bytes). If L is below 8, \<open>out\<close> is \<open>w\<close>, the one header byte \<open>(L << 4) | Type\<close> with bit
  7 clear, and the payload. Otherwise it is \<open>w\<close>, a header byte with bit 7 set, bits 4 to
  6 equal to K and bits 0 to 3 equal to the type, the K bytes of L, and the payload;
  the K bytes are the big-endian bytes of L without a leading zero byte. \<open>TypeInt\<close> is
  taken to be 0, the tag that the literal 0x00 of Encode's shortcut stands for, which
  matters for the record Integer 0 only.
\<close>

theorem Encode_header_layout:
  assumes wf: "wf_tags tg" and int0: "TypeInt tg = 0"
    and ok: "Record_Encode tg lib buffer_Write w record = (None, out)"
  shows "\<exists>payload. spec_payload lib (Value record) = Inr payload \<and>
           (length payload < 2 ^ 56 \<longrightarrow>
             (if length payload < 8
              then out = w @ (push_bit 4 (of_nat (length payload)) OR Type record) # payload \<and>
                   \<not> bit (push_bit 4 (of_nat (length payload)) OR Type record) 7
              else \<exists>hdr. out = w @ hdr # intToBytesBE (of_nat (length payload)) @ payload \<and>
                     bit hdr 7 \<and>
                     unat (drop_bit 4 hdr AND 7) = length (intToBytesBE (of_nat (length payload))) \<and>
                     hdr AND 15 = Type record \<and>
                     unat (be_int (intToBytesBE (of_nat (length payload)))) = length payload \<and>
                     hd (intToBytesBE (of_nat (length payload))) \<noteq> 0))"
proof -
  have ty: "Type record < 16 \<and>
            (\<exists>payload. spec_payload lib (Value record) = Inr payload \<and>
                        out = w @ frame (Type record) payload)"
  proof (cases "Type record = TypeInt tg")
    case True
    with ok obtain v where v: "Value record = VInt v"
      by (cases "Value record")
         (auto simp: Record_Encode_def encode_switch_def)
    have "out = w @ frame (Type record) (intToBytesBE v)"
      using ok True v
      by (cases "v = 0")
         (auto simp: Record_Encode_def encode_switch_def buffer_Write_def intToBytesBE_0
            frame_Nil int0)
    then show ?thesis using True v wf by (simp add: spec_payload_def wf_tags_def)
  next
    case nint: False
    show ?thesis
    proof (cases "Type record = TypeString tg")
      case True
      with ok nint obtain s where s: "Value record = VString s"
        by (cases "Value record")
           (auto simp: Record_Encode_def encode_switch_def)
      have "out = w @ frame (Type record) (s @ [0])"
        using ok True nint s
        by (auto simp: Record_Encode_def encode_switch_def buffer_Write_def)
      then show ?thesis using True s wf by (simp add: spec_payload_def wf_tags_def)
    next
      case nstr: False
      show ?thesis
      proof (cases "Type record = TypeDouble tg")
        case True
        with ok nint nstr obtain x where x: "Value record = VDouble x"
          by (cases "Value record")
             (auto simp: Record_Encode_def encode_switch_def)
        have "out = w @ frame (Type record)
                (intToBytesBE (int_of_float64 lib (mul_float64 lib x (float64_of_int lib 1000))))"
          using ok True nint nstr x
          by (auto simp: Record_Encode_def encode_switch_def buffer_Write_def)
        then show ?thesis using True x wf by (simp add: spec_payload_def wf_tags_def)
      next
        case False
        with ok nint nstr show ?thesis
          by (simp add: Record_Encode_def encode_switch_def)
      qed
    qed
  qed
  then obtain payload where p: "spec_payload lib (Value record) = Inr payload"
    and o: "out = w @ frame (Type record) payload" and t: "Type record < 16" by blast
  have "length payload < 2 ^ 56 \<longrightarrow>
             (if length payload < 8
              then out = w @ (push_bit 4 (of_nat (length payload)) OR Type record) # payload \<and>
                   \<not> bit (push_bit 4 (of_nat (length payload)) OR Type record) 7
              else \<exists>hdr. out = w @ hdr # intToBytesBE (of_nat (length payload)) @ payload \<and>
                     bit hdr 7 \<and>
                     unat (drop_bit 4 hdr AND 7) = length (intToBytesBE (of_nat (length payload))) \<and>
                     hdr AND 15 = Type record \<and>
                     unat (be_int (intToBytesBE (of_nat (length payload)))) = length payload \<and>
                     hd (intToBytesBE (of_nat (length payload))) \<noteq> 0)"
  proof
    assume len: "length payload < 2 ^ 56"
    from frame_layout [OF t len] show "(if length payload < 8
              then out = w @ (push_bit 4 (of_nat (length payload)) OR Type record) # payload \<and>
                   \<not> bit (push_bit 4 (of_nat (length payload)) OR Type record) 7
              else \<exists>hdr. out = w @ hdr # intToBytesBE (of_nat (length payload)) @ payload \<and>
                     bit hdr 7 \<and>
                     unat (drop_bit 4 hdr AND 7) = length (intToBytesBE (of_nat (length payload))) \<and>
                     hdr AND 15 = Type record \<and>
                     unat (be_int (intToBytesBE (of_nat (length payload)))) = length payload \<and>
                     hd (intToBytesBE (of_nat (length payload))) \<noteq> 0)"
      by (auto simp: o split: if_splits)
  qed
  with p show ?thesis by blast
qed

theorem Encode_header_layout_witness:
  "wf_tags binrpc_tags \<and> TypeInt binrpc_tags = 0 \<and>
   Record_Encode binrpc_tags demo_lib buffer_Write []
       (Record 0 1 (VString [0x61, 0x62, 0x63, 0x64, 0x65, 0x66, 0x67]))
     = (None, [0x91, 8, 0x61, 0x62, 0x63, 0x64, 0x65, 0x66, 0x67, 0x00]) \<and>
   bit (0x91 :: byte) 7 \<and>
   unat (drop_bit 4 (0x91 :: byte) AND 7) = length (intToBytesBE 8) \<and>
   (0x91 :: byte) AND 15 = 1 \<and>
   unat (be_int (intToBytesBE 8)) = 8"
proof -
  let ?r = "Record 0 1 (VString [0x61, 0x62, 0x63, 0x64, 0x65, 0x66, 0x67])"
  let ?out = "[0x91, 8, 0x61, 0x62, 0x63, 0x64, 0x65, 0x66, 0x67, 0x00] :: byte list"
  have z: "TypeInt binrpc_tags = 0" by (simp add: binrpc_tags_def)
  have b: "intToBytesBE 8 = [8]" by (simp add: intToBytesBE_unfold)
  have e: "Record_Encode binrpc_tags demo_lib buffer_Write [] ?r = (None, ?out)"
    by (simp add: Record_Encode_def encode_switch_def binrpc_tags_def buffer_Write_def frame_def b)
  have p: "spec_payload demo_lib (VString [0x61, 0x62, 0x63, 0x64, 0x65, 0x66, 0x67])
             = Inr [0x61, 0x62, 0x63, 0x64, 0x65, 0x66, 0x67, 0x00]"
    by (simp add: spec_payload_def)
  from Encode_header_layout [OF binrpc_tags_wf z e]
  have "\<exists>hdr. ?out = hdr # intToBytesBE 8 @ [0x61, 0x62, 0x63, 0x64, 0x65, 0x66, 0x67, 0x00] \<and>
          bit hdr 7 \<and> unat (drop_bit 4 hdr AND 7) = length (intToBytesBE 8) \<and>
          hdr AND 15 = 1 \<and> unat (be_int (intToBytesBE 8)) = 8"
    by (simp add: p b)
  then obtain hdr where h: "hdr = (0x91 :: byte)"
    and l: "bit hdr 7 \<and> unat (drop_bit 4 hdr AND 7) = length (intToBytesBE 8) \<and>
            hdr AND 15 = 1 \<and> unat (be_int (intToBytesBE 8)) = 8"
    by auto
  from l have "bit (0x91 :: byte) 7 \<and> unat (drop_bit 4 (0x91 :: byte) AND 7) = length (intToBytesBE 8) \<and>
            (0x91 :: byte) AND 15 = 1 \<and> unat (be_int (intToBytesBE 8)) = 8"
    by (simp only: h)
  with binrpc_tags_wf z e show ?thesis by blast
qed

text \<open>
  Claim C5. For every string \<open>s\<close>, Encode of a String record holding \<open>s\<close> leaves in
  \<open>value\<close> the bytes of \<open>s\<close> followed by one 0x00 byte (length of \<open>s\<close> plus one), and
  writes a header followed by exactly these bytes; for the empty string the payload is
  the single byte 0x00. Decoding what Encode wrote, with anything after it, gives back
  a String record holding \<open>s\<close> and consumes exactly the bytes written (for a string of
  fewer than \<open>2 ^ 56 - 1\<close> bytes, so that the length fits the seven length bytes of a
  header).
\<close>

theorem Text_payload:
  assumes wf: "wf_tags tg"
  shows "encode_switch tg lib Write w (Record sz (TypeString tg) (VString s)) = Inr (s @ [0]) \<and>
         Record_Encode tg lib buffer_Write w (Record sz (TypeString tg) (VString s))
           = (None, w @ frame (TypeString tg) (s @ [0])) \<and>
         (\<exists>hdr. frame (TypeString tg) (s @ [0]) = hdr @ s @ [0] \<and> hdr \<noteq> []) \<and>
         (length s + 1 < 2 ^ 56 \<longrightarrow>
            Decode tg lib (frame (TypeString tg) (s @ [0]) @ rest)
              = Inr (Record (of_nat (length s + 1)) (TypeString tg) (VString s),
                     length (frame (TypeString tg) (s @ [0]))))"
proof -
  have ne: "TypeString tg \<noteq> TypeInt tg" using wf_tags_distinct [OF wf] by simp
  have sw: "encode_switch tg lib Write w (Record sz (TypeString tg) (VString s)) = Inr (s @ [0])"
    using ne by (simp add: encode_switch_def)
  have enc: "Record_Encode tg lib buffer_Write w (Record sz (TypeString tg) (VString s))
           = (None, w @ frame (TypeString tg) (s @ [0]))"
    using ne by (simp add: Record_Encode_def encode_switch_def buffer_Write_def)
  have fr: "\<exists>hdr. frame (TypeString tg) (s @ [0]) = hdr @ s @ [0] \<and> hdr \<noteq> []"
    by (cases "length (s @ [0::byte]) < 8") (simp_all add: frame_def Let_def)
  have rt: "length s + 1 < 2 ^ 56 \<longrightarrow>
            Decode tg lib (frame (TypeString tg) (s @ [0]) @ rest)
              = Inr (Record (of_nat (length s + 1)) (TypeString tg) (VString s),
                     length (frame (TypeString tg) (s @ [0])))"
  proof
    assume "length s + 1 < 2 ^ 56"
    then have len: "length (s @ [0::byte]) < 2 ^ 56" by simp
    from Decode_frame_String [OF wf len, of lib rest]
    show "Decode tg lib (frame (TypeString tg) (s @ [0]) @ rest)
              = Inr (Record (of_nat (length s + 1)) (TypeString tg) (VString s),
                     length (frame (TypeString tg) (s @ [0])))"
      by simp
  qed
  from sw enc fr rt show ?thesis by blast
qed

theorem Text_payload_witness:
  "wf_tags binrpc_tags \<and>
   encode_switch binrpc_tags demo_lib buffer_Write [] (Record 0 1 (VString [])) = Inr [0x00] \<and>
   Record_Encode binrpc_tags demo_lib buffer_Write [] (Record 0 1 (VString [])) = (None, [0x11, 0x00]) \<and>
   Decode binrpc_tags demo_lib ([0x11, 0x00] @ [9]) = Inr (Record 1 1 (VString []), 2)"
proof -
  have t: "TypeString binrpc_tags = 1" by (simp add: binrpc_tags_def)
  have f: "frame 1 [0x00] = [0x11, 0x00]" by (simp add: frame_def)
  from Text_payload [OF binrpc_tags_wf, of demo_lib buffer_Write "[]" 0 "[]" "[9]"]
    binrpc_tags_wf
  show ?thesis by (simp add: t f)
qed

subsection \<open>Round trip\<close>

text \<open>
  Claim C1. For every integer \<open>v\<close> (zero, negative, with a payload of 8 bytes and the
  extended header, or shorter), Encode of an Integer record holding \<open>v\<close> succeeds, and
  decoding the bytes it wrote, with anything after them, gives an Integer record holding
  \<open>v\<close> and consumes exactly the bytes Encode wrote. \<open>TypeInt\<close> is taken to be 0, the
  tag that the literal 0x00 of Encode's shortcut stands for.
\<close>

theorem Integer_round_trip:
  assumes int0: "TypeInt tg = 0"
  shows "fst (Record_Encode tg lib buffer_Write [] (Record sz (TypeInt tg) (VInt v))) = None \<and>
         Decode tg lib (snd (Record_Encode tg lib buffer_Write [] (Record sz (TypeInt tg) (VInt v))) @ rest)
           = Inr (Record (of_nat (length (intToBytesBE v))) (TypeInt tg) (VInt v),
                  length (snd (Record_Encode tg lib buffer_Write [] (Record sz (TypeInt tg) (VInt v)))))"
proof -
  have ty: "TypeInt tg < 16" by (simp add: int0)
  have len: "length (intToBytesBE v) < 2 ^ 56"
    using length_intToBytesBE_le [of v] by simp
  have enc: "Record_Encode tg lib buffer_Write [] (Record sz (TypeInt tg) (VInt v))
               = (None, frame (TypeInt tg) (intToBytesBE v))"
  proof (cases "v = 0")
    case True
    then show ?thesis
      by (simp add: Record_Encode_def encode_switch_def buffer_Write_def intToBytesBE_0
          frame_Nil int0)
  next
    case False
    then show ?thesis
      by (simp add: Record_Encode_def encode_switch_def buffer_Write_def)
  qed
  show ?thesis
    using Decode_frame_Int [OF ty len, of lib rest]
    by (simp only: enc fst_conv snd_conv be_int_intToBytesBE)
qed

theorem Integer_round_trip_witness:
  "TypeInt binrpc_tags = 0 \<and>
   Record_Encode binrpc_tags demo_lib buffer_Write [] (Record 0 0 (VInt (- 2)))
     = (None, [0x90, 8, 255, 255, 255, 255, 255, 255, 255, 254]) \<and>
   Decode binrpc_tags demo_lib ([0x90, 8, 255, 255, 255, 255, 255, 255, 255, 254] @ [9])
     = Inr (Record 8 0 (VInt (- 2)), 10)"
proof -
  have z: "TypeInt binrpc_tags = 0" by (simp add: binrpc_tags_def)
  have e: "Record_Encode binrpc_tags demo_lib buffer_Write [] (Record 0 0 (VInt (- 2)))
             = (None, [0x90, 8, 255, 255, 255, 255, 255, 255, 255, 254])"
    by (simp add: Record_Encode_def encode_switch_def binrpc_tags_def buffer_Write_def frame_def
        intToBytesBE_unfold)
  have b: "intToBytesBE (- 2) = [255, 255, 255, 255, 255, 255, 255, 254]"
    by (simp add: intToBytesBE_unfold)
  from Integer_round_trip [OF z, of demo_lib 0 "- 2" "[9]"] z
  show ?thesis by (simp only: e b fst_conv snd_conv) simp
qed

subsection \<open>Further facts\<close>

text \<open>
  On every record that satisfies the data-model invariant, Encode writes to a buffer
  what the general algorithm of the spec produces, and fails where it fails.
\<close>

lemma frame_eq_spec:
  "frame ty p =
     (if length p < 8 then spec_header_byte False (length p) ty # p
      else spec_header_byte True (length (intToBytesBE (of_nat (length p)))) ty
             # intToBytesBE (of_nat (length p)) @ p)"
  by (simp add: frame_def spec_header_byte_def Let_def push_bit_of_nat)

lemma Encode_refines_spec_Encode:
  assumes wf: "wf_tags tg" and int0: "TypeInt tg = 0" and ok: "record_ok tg record"
  shows "Record_Encode tg lib buffer_Write w record =
           (case spec_Encode lib record of
              Inr bs \<Rightarrow> (None, w @ bs)
            | Inl e \<Rightarrow> (Some (ErrNotImplemented (Type record)), w))"
proof -
  note d = wf_tags_distinct [OF wf]
  show ?thesis
  proof (cases "Value record")
    case (VString s)
    with ok d show ?thesis
      by (simp add: record_ok_def Record_Encode_def encode_switch_def buffer_Write_def
          spec_Encode_def spec_payload_def frame_eq_spec Let_def)
  next
    case (VInt n)
    with ok d show ?thesis
      by (cases "n = 0")
         (simp_all add: record_ok_def Record_Encode_def encode_switch_def buffer_Write_def
            spec_Encode_def spec_payload_def frame_eq_spec Let_def intToBytesBE_0
            spec_header_byte_def int0)
  next
    case (VDouble x)
    with ok d show ?thesis
      by (simp add: record_ok_def Record_Encode_def encode_switch_def buffer_Write_def
          spec_Encode_def spec_payload_def frame_eq_spec Let_def)
  next
    case (VStruct items)
    with ok d show ?thesis
      by (simp add: record_ok_def Record_Encode_def encode_switch_def spec_Encode_def
          spec_payload_def)
  next
    case VOther
    with ok show ?thesis
      by (simp add: record_ok_def Record_Encode_def encode_switch_def spec_Encode_def
          spec_payload_def)
  qed
qed

text \<open>
  The integer 0. The general algorithm gives it the empty payload, so its record is the
  one header byte with size field 0, which is the tag itself; lines 166 to 183 of
  record.go build the same byte from an empty \<open>value\<close>. Encode does not run them for 0:
  its shortcut writes the literal 0x00. The two agree exactly when \<open>TypeInt\<close> is 0. The
  declaration of \<open>TypeInt\<close> is not among the sources and the spec names no tag value,
  so whether they agree is not decided here.
\<close>

lemma zero_general_algorithm:
  "spec_payload lib (VInt 0) = Inr [] \<and>
   spec_Encode lib (Record sz ty (VInt 0)) = Inr [ty] \<and>
   frame ty (intToBytesBE 0) = [ty]"
  by (simp add: spec_payload_def spec_Encode_def spec_header_byte_def intToBytesBE_0 frame_Nil)

lemma zero_shortcut_agrees_iff:
  "Record_Encode tg lib buffer_Write w (Record sz (TypeInt tg) (VInt 0))
     = buffer_Write w (frame (TypeInt tg) (intToBytesBE 0)) \<longleftrightarrow> TypeInt tg = 0"
  by (auto simp: Record_Encode_def encode_switch_def buffer_Write_def intToBytesBE_0 frame_Nil)

text \<open>
  A Double is encoded as the integer \<open>int(x * 1000)\<close> and decoded as that integer
  divided by 1000, whatever the float64 operations compute.
\<close>

lemma Decode_frame_Double:
  assumes wf: "wf_tags tg" and len: "length v < 2 ^ 56"
  shows "Decode tg lib (frame (TypeDouble tg) v @ rest)
           = Inr (Record (of_nat (length v)) (TypeDouble tg)
                    (VDouble (div_float64 lib (float64_of_int lib (be_int v))
                       (float64_of_int lib 1000))),
                  length (frame (TypeDouble tg) v))"
proof -
  have ty: "TypeDouble tg < 16" using wf by (simp add: wf_tags_def)
  from read_header_frame [OF ty len, of rest] obtain hl where
    h: "read_header (frame (TypeDouble tg) v @ rest) = Inr (TypeDouble tg, length v, hl)"
    and l: "length (frame (TypeDouble tg) v) = hl + length v"
    and d: "drop hl (frame (TypeDouble tg) v @ rest) = v @ rest" by blast
  have p: "take (length v) (drop hl (frame (TypeDouble tg) v @ rest)) = v"
    by (simp only: d) simp
  have n: "\<not> length (frame (TypeDouble tg) v @ rest) < hl + length v"
    using l by simp
  have ne: "TypeDouble tg \<noteq> TypeInt tg" "TypeDouble tg \<noteq> TypeString tg"
    using wf_tags_distinct [OF wf] by simp_all
  show ?thesis
    apply (subst Decode.simps)
    apply (simp only: h p n l ne sum.case prod.case if_False)
    apply simp
    done
qed

lemma Double_round_trip:
  assumes wf: "wf_tags tg"
  shows "Record_Encode tg lib buffer_Write [] (Record sz (TypeDouble tg) (VDouble x))
           = (None, frame (TypeDouble tg)
                (intToBytesBE (int_of_float64 lib (mul_float64 lib x (float64_of_int lib 1000))))) \<and>
         Decode tg lib
             (frame (TypeDouble tg)
                (intToBytesBE (int_of_float64 lib (mul_float64 lib x (float64_of_int lib 1000))))
              @ rest)
           = Inr (Record
                    (of_nat (length (intToBytesBE
                       (int_of_float64 lib (mul_float64 lib x (float64_of_int lib 1000))))))
                    (TypeDouble tg)
                    (VDouble (div_float64 lib
                       (float64_of_int lib
                          (int_of_float64 lib (mul_float64 lib x (float64_of_int lib 1000))))
                       (float64_of_int lib 1000))),
                  length (frame (TypeDouble tg)
                    (intToBytesBE (int_of_float64 lib (mul_float64 lib x (float64_of_int lib 1000))))))"
proof -
  let ?n = "int_of_float64 lib (mul_float64 lib x (float64_of_int lib 1000))"
  have ne: "TypeDouble tg \<noteq> TypeInt tg" "TypeDouble tg \<noteq> TypeString tg"
    using wf_tags_distinct [OF wf] by simp_all
  have len: "length (intToBytesBE ?n) < 2 ^ 56"
    using length_intToBytesBE_le [of ?n] by simp
  have enc: "Record_Encode tg lib buffer_Write [] (Record sz (TypeDouble tg) (VDouble x))
           = (None, frame (TypeDouble tg) (intToBytesBE ?n))"
    using ne by (simp add: Record_Encode_def encode_switch_def buffer_Write_def)
  from Decode_frame_Double [OF wf len, of lib rest] enc
  show ?thesis by (simp only: be_int_intToBytesBE)
qed

text \<open>
  Two runs: a payload of seven bytes takes the short header; a struct payload of three
  pairs with a repeated key decodes to the three items in their order.
\<close>

lemma Encode_seven_byte_payload:
  "Record_Encode binrpc_tags demo_lib buffer_Write []
       (Record 0 1 (VString [0x61, 0x62, 0x63, 0x64, 0x65, 0x66]))
     = (None, [0x71, 0x61, 0x62, 0x63, 0x64, 0x65, 0x66, 0x00])"
  by (simp add: Record_Encode_def encode_switch_def binrpc_tags_def buffer_Write_def frame_def
      push_bit_eq_mult)

lemma Decode_struct_example:
  "Decode binrpc_tags demo_lib
     [0x93, 15, 0x21, 0x61, 0, 0x10, 1, 0x21, 0x62, 0, 0x10, 2, 0x21, 0x61, 0, 0x10, 3]
   = Inr (Record 15 3
            (VStruct [StructItem [0x61] (Record 1 0 (VInt 1)),
                      StructItem [0x62] (Record 1 0 (VInt 2)),
                      StructItem [0x61] (Record 1 0 (VInt 3))]), 17)"
  by (simp add: Decode.simps decode_pairs.simps read_header_def be_int_def binrpc_tags_def)

end
